theory Spec2Isabelle
  imports Main "HOL-Library.Word"
begin

section \<open>DefaultBowlerComs: packet registry, frame loop and alternating-bit receiver\<close>

text \<open>
  Shallow embedding of \<^verbatim>\<open>src/include/defaultBowlerComs.hpp\<close>, the class template
  \<^verbatim>\<open>DefaultBowlerComs<N>\<close>. A buffer is
  \<^verbatim>\<open><ID (1 byte)> <Seq Num (1 byte)> <ACK num (1 byte)> <Payload (N bytes)>\<close>.
\<close>

subsection \<open>Data\<close>

type_synonym byte = "8 word"
type_synonym int32 = "32 word"

text \<open>
  The constants \<^verbatim>\<open>BOWLER_ERROR\<close> and \<^verbatim>\<open>SERVER_MANAGEMENT_PACKET_ID\<close> are declared in
  headers that are not part of the sources at hand; every operation takes them as a
  parameter. \<^verbatim>\<open>HEADER_LENGTH\<close> is fixed by the buffer format above and by the accessors
  \<^verbatim>\<open>at(0)\<close>, \<^verbatim>\<open>at(1)\<close>, \<^verbatim>\<open>at(2)\<close>: three header bytes.
\<close>

record bowler_consts =
  BOWLER_ERROR :: int32
  SERVER_MANAGEMENT_PACKET_ID :: byte

definition HEADER_LENGTH :: nat where
  "HEADER_LENGTH = 3"

text \<open>The values of \<^verbatim>\<open><cerrno>\<close> that the class assigns or tests (Linux numbering).\<close>

definition EINVAL :: int where
  "EINVAL = 22"

definition ENODEV :: int where
  "ENODEV = 19"

definition EWOULDBLOCK :: int where
  "EWOULDBLOCK = 11"

text \<open>\<^verbatim>\<open>enum states_t { waitForZero, waitForOne }\<close>\<close>

datatype states_t = waitForZero | waitForOne

text \<open>
  A \<^verbatim>\<open>Packet\<close> is an object behind a \<^verbatim>\<open>shared_ptr\<close>: its id, its reliability flag, and
  \<^verbatim>\<open>event\<close>, which is handed a pointer to the payload region, rewrites that region in
  place and returns an \<^verbatim>\<open>int32\<close>. The object may keep a state of its own (\<open>pstate\<close>);
  \<open>event\<close> maps that state and the payload to the return value, the payload afterwards
  and the state afterwards. The packet classes themselves are not among the sources at
  hand; an \<^verbatim>\<open>event\<close> that calls back into the \<^verbatim>\<open>DefaultBowlerComs\<close> that dispatches
  it is outside this model.
\<close>

record 's Packet =
  getId :: byte
  isReliable :: bool
  pstate :: 's
  event :: "'s \<Rightarrow> byte list \<Rightarrow> int32 \<times> byte list \<times> 's"

text \<open>
  What the class does to the outside world is recorded in a trace, in order: calls of the
  \<^verbatim>\<open>BowlerServer\<close>, calls of a packet's \<^verbatim>\<open>event\<close> (with the id and the payload handed
  over), calls of an ensured-packet factory (with the id of the packet it made) and
  \<^verbatim>\<open>BOWLER_LOG\<close> lines.
\<close>

datatype log_msg =
    LogPacketNotFound byte
  | LogReplyUnregistered
  | LogReading
  | LogPeeking
  | LogHandling
  | LogWriting

datatype action =
    ServerIsDataAvailable
  | ServerRead
  | ServerWrite "byte list"
  | PacketEvent byte "byte list"
  | FactoryCall byte
  | BowlerLog log_msg

text \<open>
  The members \<^verbatim>\<open>packets\<close>, \<^verbatim>\<open>reliableState\<close> and \<^verbatim>\<open>ensuredPackets\<close>, together with
  the global \<^verbatim>\<open>errno\<close> and the trace. \<open>errno\<close> is followed only where this class
  assigns or tests it.
\<close>

record 's coms =
  packets :: "byte \<rightharpoonup> 's Packet"
  reliableState :: "byte \<rightharpoonup> states_t"
  ensuredPackets :: "(unit \<Rightarrow> 's Packet) list"
  errno :: int
  trace :: "action list"

text \<open>
  The \<^verbatim>\<open>BowlerServer\<close> is external. One iteration of \<^verbatim>\<open>loop\<close> calls each of
  \<^verbatim>\<open>isDataAvailable\<close>, \<^verbatim>\<open>read\<close>, \<^verbatim>\<open>write\<close> at most once; a \<open>transport\<close> holds what
  the server answers in that iteration: the return values, the flag and the frame stored
  through the reference parameters, and the \<^verbatim>\<open>errno\<close> that \<^verbatim>\<open>isDataAvailable\<close> leaves
  (\<open>None\<close> when it does not touch it).
\<close>

record transport =
  avail_ret :: int32
  avail_flag :: bool
  avail_errno :: "int option"
  read_ret :: int32
  read_data :: "byte list"
  write_ret :: int32

subsection \<open>Buffer accessors\<close>

text \<open>
  \<^verbatim>\<open>std::array::at\<close> is range-checked, and the \<^verbatim>\<open>static_assert\<close> makes
  \<^verbatim>\<open>N >= HEADER_LENGTH + 1\<close>, so the three header reads never leave the buffer; the
  theorems below carry that bound on the frame as \<open>HEADER_LENGTH + 1 \<le> length idata\<close>.
\<close>

definition getPacketId :: "byte list \<Rightarrow> byte" where
  "getPacketId idata = idata ! 0"

definition getSeqNum :: "byte list \<Rightarrow> byte" where
  "getSeqNum idata = idata ! 1"

definition getAckNum :: "byte list \<Rightarrow> byte" where
  "getAckNum idata = idata ! 2"

definition setSeqNum :: "byte list \<Rightarrow> byte \<Rightarrow> byte list" where
  "setSeqNum idata iseqNum = idata[1 := iseqNum]"

definition setAckNum :: "byte list \<Rightarrow> byte \<Rightarrow> byte list" where
  "setAckNum idata iackNum = idata[2 := iackNum]"

text \<open>\<^verbatim>\<open>std::fill(std::next(data.begin(), HEADER_LENGTH), data.end(), 0)\<close>\<close>

definition clearPayload :: "byte list \<Rightarrow> byte list" where
  "clearPayload idata = take HEADER_LENGTH idata @ replicate (length idata - HEADER_LENGTH) 0"

subsection \<open>External calls\<close>

definition bowler_log :: "log_msg \<Rightarrow> 's coms \<Rightarrow> 's coms" where
  "bowler_log m st = st\<lparr>trace := trace st @ [BowlerLog m]\<rparr>"

text \<open>\<^verbatim>\<open>server->write(idata)\<close>: the frame goes out, the transport's answer comes back.\<close>

definition server_write :: "transport \<Rightarrow> byte list \<Rightarrow> 's coms \<Rightarrow> int32 \<times> 's coms" where
  "server_write io idata st = (write_ret io, st\<lparr>trace := trace st @ [ServerWrite idata]\<rparr>)"

text \<open>
  \<^verbatim>\<open>ipacket->second->event(idata.data() + HEADER_LENGTH)\<close>, where \<open>ipacket\<close> is the map
  entry (key and packet): returns the value of \<^verbatim>\<open>event\<close>, the buffer with the payload
  region as the packet left it, and the state in which the stored packet has its new
  state.
\<close>

definition call_event ::
  "byte \<times> 's Packet \<Rightarrow> byte list \<Rightarrow> 's coms \<Rightarrow> int32 \<times> byte list \<times> 's coms" where
  "call_event ipacket idata st =
     (case event (snd ipacket) (pstate (snd ipacket)) (drop HEADER_LENGTH idata) of
        (r, payload, s') \<Rightarrow>
          (r, take HEADER_LENGTH idata @ payload,
           st\<lparr>packets := (packets st)(fst ipacket \<mapsto> (snd ipacket)\<lparr>pstate := s'\<rparr>),
              trace := trace st @ [PacketEvent (fst ipacket) (drop HEADER_LENGTH idata)]\<rparr>))"

subsection \<open>Registry\<close>

text \<open>\<^verbatim>\<open>addEnsuredPacket\<close>: \<^verbatim>\<open>ensuredPackets.push_back(iaddPacket)\<close>\<close>

definition addEnsuredPacket :: "(unit \<Rightarrow> 's Packet) \<Rightarrow> 's coms \<Rightarrow> 's coms" where
  "addEnsuredPacket iaddPacket st = st\<lparr>ensuredPackets := ensuredPackets st @ [iaddPacket]\<rparr>"

text \<open>\<^verbatim>\<open>addPacket\<close>: returns \<open>1\<close> on success or \<^verbatim>\<open>BOWLER_ERROR\<close> with \<^verbatim>\<open>errno = EINVAL\<close>.\<close>

definition addPacket :: "bowler_consts \<Rightarrow> 's Packet \<Rightarrow> 's coms \<Rightarrow> int32 \<times> 's coms" where
  "addPacket c ipacket st =
     (if packets st (getId ipacket) = None then
        (let st1 = (if isReliable ipacket
                    then st\<lparr>reliableState := (reliableState st)(getId ipacket \<mapsto> waitForZero)\<rparr>
                    else st)
         in (1, st1\<lparr>packets := (packets st1)(getId ipacket \<mapsto> ipacket)\<rparr>))
      else (BOWLER_ERROR c, st\<lparr>errno := EINVAL\<rparr>))"

text \<open>
  \<^verbatim>\<open>addEnsuredPackets\<close>: the range-for over \<^verbatim>\<open>ensuredPackets\<close>, leaving at the first
  \<^verbatim>\<open>addPacket(elem()) == BOWLER_ERROR\<close>. The vector itself is only read.
\<close>

fun addEnsuredPackets_from ::
  "bowler_consts \<Rightarrow> (unit \<Rightarrow> 's Packet) list \<Rightarrow> 's coms \<Rightarrow> int32 \<times> 's coms" where
  "addEnsuredPackets_from c [] st = (1, st)"
| "addEnsuredPackets_from c (elem # rest) st =
     (let p = elem ();
          st0 = st\<lparr>trace := trace st @ [FactoryCall (getId p)]\<rparr>
      in case addPacket c p st0 of
           (r, st1) \<Rightarrow>
             if r = BOWLER_ERROR c then (BOWLER_ERROR c, st1)
             else addEnsuredPackets_from c rest st1)"

definition addEnsuredPackets :: "bowler_consts \<Rightarrow> 's coms \<Rightarrow> int32 \<times> 's coms" where
  "addEnsuredPackets c st = addEnsuredPackets_from c (ensuredPackets st) st"

text \<open>\<^verbatim>\<open>removePacket\<close>: \<^verbatim>\<open>packets.erase(iid)\<close>\<close>

definition removePacket :: "byte \<Rightarrow> 's coms \<Rightarrow> 's coms" where
  "removePacket iid st = st\<lparr>packets := (packets st)(iid := None)\<rparr>"

subsection \<open>Handling one frame\<close>

definition handlePacketUnreliable ::
  "bowler_consts \<Rightarrow> transport \<Rightarrow> byte \<times> 's Packet \<Rightarrow> byte list \<Rightarrow> 's coms \<Rightarrow> 's coms" where
  "handlePacketUnreliable c io ipacket idata st =
     (case call_event ipacket idata st of
        (error, idata1, st1) \<Rightarrow>
          (let st2 = (if error = BOWLER_ERROR c then bowler_log LogHandling st1 else st1)
           in case server_write io idata1 st2 of
                (error', st3) \<Rightarrow>
                  if error' = BOWLER_ERROR c then bowler_log LogWriting st3 else st3))"

text \<open>
  \<^verbatim>\<open>states_t &state = reliableState[ipacket->first]\<close>: \<^verbatim>\<open>operator[]\<close> inserts the
  value-initialised state, \<^verbatim>\<open>waitForZero\<close>, when the key has no entry.
\<close>

definition state_ref :: "byte \<Rightarrow> 's coms \<Rightarrow> states_t \<times> 's coms" where
  "state_ref k st =
     (case reliableState st k of
        Some s \<Rightarrow> (s, st)
      | None \<Rightarrow> (waitForZero, st\<lparr>reliableState := (reliableState st)(k \<mapsto> waitForZero)\<rparr>))"

definition set_state :: "byte \<Rightarrow> states_t \<Rightarrow> 's coms \<Rightarrow> 's coms" where
  "set_state k s st = st\<lparr>reliableState := (reliableState st)(k \<mapsto> s)\<rparr>"

text \<open>The four tails of \<^verbatim>\<open>handlePacketReliable\<close> share the write and its log line.\<close>

definition write_logged :: "bowler_consts \<Rightarrow> transport \<Rightarrow> byte list \<Rightarrow> 's coms \<Rightarrow> 's coms" where
  "write_logged c io idata st =
     (case server_write io idata st of
        (error, st1) \<Rightarrow> if error = BOWLER_ERROR c then bowler_log LogWriting st1 else st1)"

definition handlePacketReliable ::
  "bowler_consts \<Rightarrow> transport \<Rightarrow> byte \<times> 's Packet \<Rightarrow> byte list \<Rightarrow> 's coms \<Rightarrow> 's coms" where
  "handlePacketReliable c io ipacket idata st =
     (case state_ref (fst ipacket) st of
        (state, st0) \<Rightarrow>
          (case state of
             waitForZero \<Rightarrow>
               if getSeqNum idata = 0 then
                 (case call_event ipacket idata st0 of
                    (eventError, idata1, st1) \<Rightarrow>
                      (let st2 = (if eventError = BOWLER_ERROR c
                                  then bowler_log LogHandling st1 else st1);
                           st3 = write_logged c io (setAckNum idata1 0) st2
                       in if fst ipacket = SERVER_MANAGEMENT_PACKET_ID c \<and> eventError = 2
                          then set_state (fst ipacket) waitForZero st3
                          else set_state (fst ipacket) waitForOne st3))
               else write_logged c io (setAckNum (clearPayload idata) 1) st0
           | waitForOne \<Rightarrow>
               if getSeqNum idata = 1 then
                 (case call_event ipacket idata st0 of
                    (error, idata1, st1) \<Rightarrow>
                      (let st2 = (if error = BOWLER_ERROR c
                                  then bowler_log LogHandling st1 else st1);
                           st3 = write_logged c io (setAckNum idata1 1) st2
                       in set_state (fst ipacket) waitForZero st3))
               else write_logged c io (setAckNum (clearPayload idata) 0) st0))"

subsection \<open>The loop\<close>

text \<open>
  \<^verbatim>\<open>loop\<close>: one iteration. The only \<^verbatim>\<open>return BOWLER_ERROR\<close> is in the branch where no
  packet has the frame's id; every other path falls through to \<^verbatim>\<open>return 1\<close>.
\<close>

definition loop :: "bowler_consts \<Rightarrow> transport \<Rightarrow> 's coms \<Rightarrow> int32 \<times> 's coms" where
  "loop c io st =
     (let st1 = st\<lparr>errno := (case avail_errno io of None \<Rightarrow> errno st | Some e \<Rightarrow> e),
                   trace := trace st @ [ServerIsDataAvailable]\<rparr>
      in if avail_ret io \<noteq> BOWLER_ERROR c then
           if avail_flag io then
             (let st2 = st1\<lparr>trace := trace st1 @ [ServerRead]\<rparr>
              in if read_ret io \<noteq> BOWLER_ERROR c then
                   (let data = read_data io;
                        id = getPacketId data
                    in case packets st2 id of
                         None \<Rightarrow>
                           (let st3 = bowler_log (LogPacketNotFound id) st2
                            in case server_write io (clearPayload data) st3 of
                                 (writeError, st4) \<Rightarrow>
                                   (let st5 = (if writeError = BOWLER_ERROR c
                                               then bowler_log LogReplyUnregistered st4
                                               else st4)
                                    in (BOWLER_ERROR c, st5\<lparr>errno := ENODEV\<rparr>)))
                       | Some p \<Rightarrow>
                           if isReliable p
                           then (1, handlePacketReliable c io (id, p) data st2)
                           else (1, handlePacketUnreliable c io (id, p) data st2))
                 else (1, bowler_log LogReading st2))
           else (1, st1)
         else (1, if errno st1 \<noteq> EWOULDBLOCK then bowler_log LogPeeking st1 else st1))"

subsection \<open>Reading a trace\<close>

text \<open>The \<^verbatim>\<open>event\<close> calls of a trace, in order, each with the id and the payload handed over.\<close>

fun packet_events :: "action list \<Rightarrow> (byte \<times> byte list) list" where
  "packet_events [] = []"
| "packet_events (PacketEvent k p # tr) = (k, p) # packet_events tr"
| "packet_events (a # tr) = packet_events tr"

text \<open>The frames handed to \<^verbatim>\<open>server->write\<close>, in order.\<close>

fun written_frames :: "action list \<Rightarrow> byte list list" where
  "written_frames [] = []"
| "written_frames (ServerWrite f # tr) = f # written_frames tr"
| "written_frames (a # tr) = written_frames tr"

text \<open>The ids of the packets made by the factory calls, in order.\<close>

fun factory_calls :: "action list \<Rightarrow> byte list" where
  "factory_calls [] = []"
| "factory_calls (FactoryCall k # tr) = k # factory_calls tr"
| "factory_calls (a # tr) = factory_calls tr"

subsection \<open>A concrete device\<close>

text \<open>
  Concrete values on which the theorems are exercised: frames of eight bytes, a reliable
  packet with id 5 that doubles the first payload byte, a reliable server management
  packet whose \<^verbatim>\<open>event\<close> returns 2, and unreliable packets that leave the payload alone.
  Each packet counts its \<^verbatim>\<open>event\<close> calls in its own state.
\<close>

definition ex_consts :: bowler_consts where
  "ex_consts = \<lparr>BOWLER_ERROR = - 1, SERVER_MANAGEMENT_PACKET_ID = 1\<rparr>"

definition double_first :: "byte list \<Rightarrow> byte list" where
  "double_first p = (case p of [] \<Rightarrow> [] | b # bs \<Rightarrow> (2 * b) # bs)"

definition doubler :: "nat Packet" where
  "doubler = \<lparr>getId = 5, isReliable = True, pstate = 0,
              event = (\<lambda>n p. (1, double_first p, Suc n))\<rparr>"

definition mgmt :: "nat Packet" where
  "mgmt = \<lparr>getId = 1, isReliable = True, pstate = 0,
           event = (\<lambda>n p. (2, p, Suc n))\<rparr>"

definition plain :: "byte \<Rightarrow> nat Packet" where
  "plain k = \<lparr>getId = k, isReliable = False, pstate = 0,
              event = (\<lambda>n p. (1, p, Suc n))\<rparr>"

definition coms0 :: "nat coms" where
  "coms0 = \<lparr>packets = Map.empty, reliableState = Map.empty, ensuredPackets = [],
            errno = 0, trace = []\<rparr>"

definition coms_ex :: "nat coms" where
  "coms_ex = snd (addPacket ex_consts doubler (snd (addPacket ex_consts mgmt coms0)))"

definition ex_queue :: "(unit \<Rightarrow> nat Packet) list" where
  "ex_queue = [\<lambda>u. plain 7, \<lambda>u. doubler, \<lambda>u. plain 9]"

definition coms_queued :: "nat coms" where
  "coms_queued = coms_ex\<lparr>ensuredPackets := ex_queue\<rparr>"

definition io_frame :: "byte list \<Rightarrow> transport" where
  "io_frame f = \<lparr>avail_ret = 1, avail_flag = True, avail_errno = None,
                 read_ret = 1, read_data = f, write_ret = 1\<rparr>"

definition io_read_error :: transport where
  "io_read_error = \<lparr>avail_ret = 1, avail_flag = True, avail_errno = None,
                    read_ret = - 1, read_data = [], write_ret = 1\<rparr>"

definition io_peek_error :: transport where
  "io_peek_error = \<lparr>avail_ret = - 1, avail_flag = False, avail_errno = Some 5,
                    read_ret = 1, read_data = [], write_ret = 1\<rparr>"

section \<open>Properties\<close>

subsection \<open>Traces and buffers\<close>

lemma written_frames_append: "written_frames (xs @ ys) = written_frames xs @ written_frames ys"
  by (induction xs rule: written_frames.induct) simp_all

lemma packet_events_append: "packet_events (xs @ ys) = packet_events xs @ packet_events ys"
  by (induction xs rule: packet_events.induct) simp_all

lemma header_bytes:
  assumes "HEADER_LENGTH \<le> length idata"
  shows "take HEADER_LENGTH idata = [getPacketId idata, getSeqNum idata, getAckNum idata]"
proof -
  have "\<exists>x y z rest. idata = x # y # z # rest"
    using assms by (auto simp: HEADER_LENGTH_def numeral_3_eq_3 Suc_le_length_iff)
  then obtain x y z rest where "idata = x # y # z # rest" by blast
  then show ?thesis
    by (simp add: getPacketId_def getSeqNum_def getAckNum_def HEADER_LENGTH_def)
qed

lemma cleared_frame:
  assumes "HEADER_LENGTH \<le> length idata"
  shows "setAckNum (clearPayload idata) a =
           [getPacketId idata, getSeqNum idata, a] @ replicate (length idata - HEADER_LENGTH) 0"
proof -
  have "\<exists>x y z rest. idata = x # y # z # rest"
    using assms by (auto simp: HEADER_LENGTH_def numeral_3_eq_3 Suc_le_length_iff)
  then obtain x y z rest where "idata = x # y # z # rest" by blast
  then show ?thesis
    by (simp add: setAckNum_def clearPayload_def getPacketId_def getSeqNum_def HEADER_LENGTH_def)
qed

text \<open>The four branches of \<^verbatim>\<open>handlePacketReliable\<close>, each as one state update.\<close>

lemma hpr_zero_match:
  assumes "reliableState st k = Some waitForZero"
      and "getSeqNum idata = 0"
      and "event p (pstate p) (drop HEADER_LENGTH idata) = (r, payload, s')"
  shows "handlePacketReliable c io (k, p) idata st =
           st\<lparr>packets := (packets st)(k \<mapsto> p\<lparr>pstate := s'\<rparr>),
              reliableState := (reliableState st)
                (k \<mapsto> (if k = SERVER_MANAGEMENT_PACKET_ID c \<and> r = 2 then waitForZero else waitForOne)),
              trace := trace st @ [PacketEvent k (drop HEADER_LENGTH idata)]
                 @ (if r = BOWLER_ERROR c then [BowlerLog LogHandling] else [])
                 @ [ServerWrite (setAckNum (take HEADER_LENGTH idata @ payload) 0)]
                 @ (if write_ret io = BOWLER_ERROR c then [BowlerLog LogWriting] else [])\<rparr>"
  using assms
  by (simp add: handlePacketReliable_def state_ref_def call_event_def write_logged_def
      server_write_def bowler_log_def set_state_def Let_def)

lemma hpr_zero_mismatch:
  assumes "reliableState st (fst ipacket) = Some waitForZero"
      and "getSeqNum idata \<noteq> 0"
  shows "handlePacketReliable c io ipacket idata st =
           st\<lparr>trace := trace st @ [ServerWrite (setAckNum (clearPayload idata) 1)]
                 @ (if write_ret io = BOWLER_ERROR c then [BowlerLog LogWriting] else [])\<rparr>"
  using assms
  by (simp add: handlePacketReliable_def state_ref_def write_logged_def
      server_write_def bowler_log_def Let_def)

lemma hpr_one_match:
  assumes "reliableState st k = Some waitForOne"
      and "getSeqNum idata = 1"
      and "event p (pstate p) (drop HEADER_LENGTH idata) = (r, payload, s')"
  shows "handlePacketReliable c io (k, p) idata st =
           st\<lparr>packets := (packets st)(k \<mapsto> p\<lparr>pstate := s'\<rparr>),
              reliableState := (reliableState st)(k \<mapsto> waitForZero),
              trace := trace st @ [PacketEvent k (drop HEADER_LENGTH idata)]
                 @ (if r = BOWLER_ERROR c then [BowlerLog LogHandling] else [])
                 @ [ServerWrite (setAckNum (take HEADER_LENGTH idata @ payload) 1)]
                 @ (if write_ret io = BOWLER_ERROR c then [BowlerLog LogWriting] else [])\<rparr>"
  using assms
  by (simp add: handlePacketReliable_def state_ref_def call_event_def write_logged_def
      server_write_def bowler_log_def set_state_def Let_def)

lemma hpr_one_mismatch:
  assumes "reliableState st (fst ipacket) = Some waitForOne"
      and "getSeqNum idata \<noteq> 1"
  shows "handlePacketReliable c io ipacket idata st =
           st\<lparr>trace := trace st @ [ServerWrite (setAckNum (clearPayload idata) 0)]
                 @ (if write_ret io = BOWLER_ERROR c then [BowlerLog LogWriting] else [])\<rparr>"
  using assms
  by (simp add: handlePacketReliable_def state_ref_def write_logged_def
      server_write_def bowler_log_def Let_def)

subsection \<open>The alternating-bit receiver\<close>

text \<open>
  C1. A reliable channel that waits for sequence number 0 and receives a frame with
  sequence number 0: \<^verbatim>\<open>event\<close> is called exactly once, on the payload region; the one
  frame written is the header followed by the payload the packet left, with ACK byte 0;
  the channel goes to \<open>waitForOne\<close>, except that it stays in \<open>waitForZero\<close> when the id
  is the server management id and \<^verbatim>\<open>event\<close> returned 2.
\<close>

theorem waitForZero_seq0_handled:
  assumes "reliableState st k = Some waitForZero"
      and "HEADER_LENGTH + 1 \<le> length idata"
      and "getSeqNum idata = 0"
      and "event p (pstate p) (drop HEADER_LENGTH idata) = (r, payload, s')"
      and "st' = handlePacketReliable c io (k, p) idata st"
  shows "packet_events (trace st') = packet_events (trace st) @ [(k, drop HEADER_LENGTH idata)]
       \<and> written_frames (trace st') =
           written_frames (trace st) @ [[getPacketId idata, getSeqNum idata, 0] @ payload]
       \<and> reliableState st' = (reliableState st)
           (k \<mapsto> (if k = SERVER_MANAGEMENT_PACKET_ID c \<and> r = 2 then waitForZero else waitForOne))
       \<and> packets st' = (packets st)(k \<mapsto> p\<lparr>pstate := s'\<rparr>)"
proof -
  have hdr: "setAckNum (take HEADER_LENGTH idata @ payload) 0
               = [getPacketId idata, getSeqNum idata, 0] @ payload"
    using assms(2) by (simp add: header_bytes setAckNum_def)
  show ?thesis
    unfolding assms(5) hpr_zero_match [OF assms(1) assms(3) assms(4)] hdr
    by (simp add: packet_events_append written_frames_append)
qed

theorem waitForZero_seq0_handled_witness:
  "reliableState coms_ex 5 = Some waitForZero
   \<and> HEADER_LENGTH + 1 \<le> length [5, 0, 0, 3, 0, 0, 0, 0 :: byte]
   \<and> getSeqNum [5, 0, 0, 3, 0, 0, 0, 0] = 0
   \<and> packet_events (trace (handlePacketReliable ex_consts (io_frame [5, 0, 0, 3, 0, 0, 0, 0])
        (5, doubler) [5, 0, 0, 3, 0, 0, 0, 0] coms_ex)) = [(5, [3, 0, 0, 0, 0])]
   \<and> written_frames (trace (handlePacketReliable ex_consts (io_frame [5, 0, 0, 3, 0, 0, 0, 0])
        (5, doubler) [5, 0, 0, 3, 0, 0, 0, 0] coms_ex)) = [[5, 0, 0, 6, 0, 0, 0, 0]]
   \<and> reliableState (handlePacketReliable ex_consts (io_frame [5, 0, 0, 3, 0, 0, 0, 0])
        (5, doubler) [5, 0, 0, 3, 0, 0, 0, 0] coms_ex) 5 = Some waitForOne
   \<and> reliableState (handlePacketReliable ex_consts (io_frame [1, 0, 0, 3, 0, 0, 0, 0])
        (1, mgmt) [1, 0, 0, 3, 0, 0, 0, 0] coms_ex) 1 = Some waitForZero"
  using waitForZero_seq0_handled [of coms_ex 5 "[5, 0, 0, 3, 0, 0, 0, 0]" doubler
          1 "[6, 0, 0, 0, 0]" 1 _ ex_consts "io_frame [5, 0, 0, 3, 0, 0, 0, 0]", OF _ _ _ _ refl]
        waitForZero_seq0_handled [of coms_ex 1 "[1, 0, 0, 3, 0, 0, 0, 0]" mgmt
          2 "[3, 0, 0, 0, 0]" 1 _ ex_consts "io_frame [1, 0, 0, 3, 0, 0, 0, 0]", OF _ _ _ _ refl]
  by (simp add: coms_ex_def coms0_def addPacket_def ex_consts_def doubler_def mgmt_def
      double_first_def HEADER_LENGTH_def getSeqNum_def getPacketId_def)

text \<open>
  C3. A reliable channel that waits for sequence number 1 and receives a frame with
  sequence number 1: \<^verbatim>\<open>event\<close> is called once on the payload region, the frame written
  has ACK byte 1, and the channel goes to \<open>waitForZero\<close> whatever \<^verbatim>\<open>event\<close> returned and
  whatever the id, the server management packet returning 2 included.
\<close>

theorem waitForOne_seq1_handled:
  assumes "reliableState st k = Some waitForOne"
      and "HEADER_LENGTH + 1 \<le> length idata"
      and "getSeqNum idata = 1"
      and "event p (pstate p) (drop HEADER_LENGTH idata) = (r, payload, s')"
      and "st' = handlePacketReliable c io (k, p) idata st"
  shows "packet_events (trace st') = packet_events (trace st) @ [(k, drop HEADER_LENGTH idata)]
       \<and> written_frames (trace st') =
           written_frames (trace st) @ [[getPacketId idata, getSeqNum idata, 1] @ payload]
       \<and> reliableState st' = (reliableState st)(k \<mapsto> waitForZero)
       \<and> packets st' = (packets st)(k \<mapsto> p\<lparr>pstate := s'\<rparr>)"
proof -
  have hdr: "setAckNum (take HEADER_LENGTH idata @ payload) 1
               = [getPacketId idata, getSeqNum idata, 1] @ payload"
    using assms(2) by (simp add: header_bytes setAckNum_def)
  show ?thesis
    unfolding assms(5) hpr_one_match [OF assms(1) assms(3) assms(4)] hdr
    by (simp add: packet_events_append written_frames_append)
qed

theorem waitForOne_seq1_handled_witness:
  "reliableState (set_state 1 waitForOne coms_ex) 1 = Some waitForOne
   \<and> HEADER_LENGTH + 1 \<le> length [1, 1, 0, 3, 0, 0, 0, 0 :: byte]
   \<and> getSeqNum [1, 1, 0, 3, 0, 0, 0, 0] = 1
   \<and> event mgmt (pstate mgmt) (drop HEADER_LENGTH [1, 1, 0, 3, 0, 0, 0, 0]) = (2, [3, 0, 0, 0, 0], 1)
   \<and> SERVER_MANAGEMENT_PACKET_ID ex_consts = 1
   \<and> packet_events (trace (handlePacketReliable ex_consts (io_frame [1, 1, 0, 3, 0, 0, 0, 0])
        (1, mgmt) [1, 1, 0, 3, 0, 0, 0, 0] (set_state 1 waitForOne coms_ex))) = [(1, [3, 0, 0, 0, 0])]
   \<and> written_frames (trace (handlePacketReliable ex_consts (io_frame [1, 1, 0, 3, 0, 0, 0, 0])
        (1, mgmt) [1, 1, 0, 3, 0, 0, 0, 0] (set_state 1 waitForOne coms_ex))) = [[1, 1, 1, 3, 0, 0, 0, 0]]
   \<and> reliableState (handlePacketReliable ex_consts (io_frame [1, 1, 0, 3, 0, 0, 0, 0])
        (1, mgmt) [1, 1, 0, 3, 0, 0, 0, 0] (set_state 1 waitForOne coms_ex)) 1 = Some waitForZero"
  using waitForOne_seq1_handled [of "set_state 1 waitForOne coms_ex" 1 "[1, 1, 0, 3, 0, 0, 0, 0]" mgmt
          2 "[3, 0, 0, 0, 0]" 1 _ ex_consts "io_frame [1, 1, 0, 3, 0, 0, 0, 0]", OF _ _ _ _ refl]
  by (simp add: coms_ex_def coms0_def addPacket_def ex_consts_def doubler_def mgmt_def set_state_def
      HEADER_LENGTH_def getSeqNum_def getPacketId_def)

text \<open>
  C2. A reliable channel that receives the sequence number of the other parity
  (\<open>waitForZero\<close> and sequence number 1, or \<open>waitForOne\<close> and sequence number 0):
  \<^verbatim>\<open>event\<close> is not called, the one frame written keeps id and sequence number, has the
  received sequence number as ACK byte (1 in \<open>waitForZero\<close>, 0 in \<open>waitForOne\<close>) and an
  all-zero payload, and neither the channel state nor the registry changes.
\<close>

theorem other_parity_reacknowledged:
  assumes "reliableState st k = Some s"
      and "HEADER_LENGTH + 1 \<le> length idata"
      and "getSeqNum idata = (case s of waitForZero \<Rightarrow> 1 | waitForOne \<Rightarrow> 0)"
      and "st' = handlePacketReliable c io (k, p) idata st"
  shows "packet_events (trace st') = packet_events (trace st)
       \<and> written_frames (trace st') = written_frames (trace st) @
           [[getPacketId idata, getSeqNum idata, getSeqNum idata]
              @ replicate (length idata - HEADER_LENGTH) 0]
       \<and> reliableState st' = reliableState st
       \<and> packets st' = packets st"
proof (cases s)
  case waitForZero
  with assms have "reliableState st (fst (k, p)) = Some waitForZero" "getSeqNum idata \<noteq> 0"
    by simp_all
  from hpr_zero_mismatch [OF this] assms(2,3) waitForZero show ?thesis
    unfolding assms(4)
    by (simp add: cleared_frame packet_events_append written_frames_append)
next
  case waitForOne
  with assms have "reliableState st (fst (k, p)) = Some waitForOne" "getSeqNum idata \<noteq> 1"
    by simp_all
  from hpr_one_mismatch [OF this] assms(2,3) waitForOne show ?thesis
    unfolding assms(4)
    by (simp add: cleared_frame packet_events_append written_frames_append)
qed

theorem other_parity_reacknowledged_witness:
  "reliableState coms_ex 5 = Some waitForZero
   \<and> HEADER_LENGTH + 1 \<le> length [5, 1, 0, 3, 0, 0, 0, 0 :: byte]
   \<and> getSeqNum [5, 1, 0, 3, 0, 0, 0, 0] = (case waitForZero of waitForZero \<Rightarrow> 1 | waitForOne \<Rightarrow> 0)
   \<and> packet_events (trace (handlePacketReliable ex_consts (io_frame [5, 1, 0, 3, 0, 0, 0, 0])
        (5, doubler) [5, 1, 0, 3, 0, 0, 0, 0] coms_ex)) = []
   \<and> written_frames (trace (handlePacketReliable ex_consts (io_frame [5, 1, 0, 3, 0, 0, 0, 0])
        (5, doubler) [5, 1, 0, 3, 0, 0, 0, 0] coms_ex)) = [[5, 1, 1, 0, 0, 0, 0, 0]]
   \<and> reliableState (handlePacketReliable ex_consts (io_frame [5, 1, 0, 3, 0, 0, 0, 0])
        (5, doubler) [5, 1, 0, 3, 0, 0, 0, 0] coms_ex) 5 = Some waitForZero"
  using other_parity_reacknowledged [of coms_ex 5 waitForZero "[5, 1, 0, 3, 0, 0, 0, 0]" _
          ex_consts "io_frame [5, 1, 0, 3, 0, 0, 0, 0]" doubler, OF _ _ _ refl]
  by (simp add: coms_ex_def coms0_def addPacket_def ex_consts_def doubler_def mgmt_def
      HEADER_LENGTH_def getSeqNum_def getPacketId_def numeral_3_eq_3)

text \<open>
  C9. Only the exact expected byte is accepted. In \<open>waitForZero\<close> every sequence byte other
  than 0, and in \<open>waitForOne\<close> every sequence byte other than 1, takes the re-acknowledging
  branch: no \<^verbatim>\<open>event\<close> call, ACK byte 1 in \<open>waitForZero\<close> and 0 in \<open>waitForOne\<close>, all-zero
  payload, channel state unchanged.
\<close>

theorem unexpected_seq_byte_reacknowledged:
  assumes "reliableState st k = Some s"
      and "HEADER_LENGTH + 1 \<le> length idata"
      and "getSeqNum idata \<noteq> (case s of waitForZero \<Rightarrow> 0 | waitForOne \<Rightarrow> 1)"
      and "st' = handlePacketReliable c io (k, p) idata st"
  shows "packet_events (trace st') = packet_events (trace st)
       \<and> written_frames (trace st') = written_frames (trace st) @
           [[getPacketId idata, getSeqNum idata, (case s of waitForZero \<Rightarrow> 1 | waitForOne \<Rightarrow> 0)]
              @ replicate (length idata - HEADER_LENGTH) 0]
       \<and> reliableState st' = reliableState st
       \<and> packets st' = packets st"
proof (cases s)
  case waitForZero
  with assms have "reliableState st (fst (k, p)) = Some waitForZero" "getSeqNum idata \<noteq> 0"
    by simp_all
  from hpr_zero_mismatch [OF this] assms(2) waitForZero show ?thesis
    unfolding assms(4)
    by (simp add: cleared_frame packet_events_append written_frames_append)
next
  case waitForOne
  with assms have "reliableState st (fst (k, p)) = Some waitForOne" "getSeqNum idata \<noteq> 1"
    by simp_all
  from hpr_one_mismatch [OF this] assms(2) waitForOne show ?thesis
    unfolding assms(4)
    by (simp add: cleared_frame packet_events_append written_frames_append)
qed

theorem unexpected_seq_byte_reacknowledged_witness:
  "reliableState coms_ex 5 = Some waitForZero
   \<and> HEADER_LENGTH + 1 \<le> length [5, 7, 0, 3, 0, 0, 0, 0 :: byte]
   \<and> getSeqNum [5, 7, 0, 3, 0, 0, 0, 0] \<noteq> (case waitForZero of waitForZero \<Rightarrow> 0 | waitForOne \<Rightarrow> 1)
   \<and> packet_events (trace (handlePacketReliable ex_consts (io_frame [5, 7, 0, 3, 0, 0, 0, 0])
        (5, doubler) [5, 7, 0, 3, 0, 0, 0, 0] coms_ex)) = []
   \<and> written_frames (trace (handlePacketReliable ex_consts (io_frame [5, 7, 0, 3, 0, 0, 0, 0])
        (5, doubler) [5, 7, 0, 3, 0, 0, 0, 0] coms_ex)) = [[5, 7, 1, 0, 0, 0, 0, 0]]
   \<and> reliableState (handlePacketReliable ex_consts (io_frame [5, 7, 0, 3, 0, 0, 0, 0])
        (5, doubler) [5, 7, 0, 3, 0, 0, 0, 0] coms_ex) 5 = Some waitForZero"
  using unexpected_seq_byte_reacknowledged [of coms_ex 5 waitForZero "[5, 7, 0, 3, 0, 0, 0, 0]" _
          ex_consts "io_frame [5, 7, 0, 3, 0, 0, 0, 0]" doubler, OF _ _ _ refl]
  by (simp add: coms_ex_def coms0_def addPacket_def ex_consts_def doubler_def mgmt_def
      HEADER_LENGTH_def getSeqNum_def getPacketId_def numeral_3_eq_3)

subsection \<open>The registry\<close>

text \<open>The state handed in matters to \<^verbatim>\<open>loop\<close> only through members other than \<open>errno\<close>,
  once \<^verbatim>\<open>isDataAvailable\<close> has succeeded.\<close>

lemma handlePacketReliable_errno:
  "handlePacketReliable c io ip d (st\<lparr>errno := e, trace := t\<rparr>)
     = (handlePacketReliable c io ip d (st\<lparr>trace := t\<rparr>))\<lparr>errno := e\<rparr>"
proof -
  obtain r payload s' where
    ev: "event (snd ip) (pstate (snd ip)) (drop HEADER_LENGTH d) = (r, payload, s')"
    by (cases "event (snd ip) (pstate (snd ip)) (drop HEADER_LENGTH d)")
  show ?thesis
  proof (cases "reliableState st (fst ip)")
    case None
    then show ?thesis
      by (simp add: handlePacketReliable_def state_ref_def call_event_def ev write_logged_def
          server_write_def bowler_log_def set_state_def Let_def)
  next
    case (Some s)
    then show ?thesis
      by (cases s)
         (simp_all add: handlePacketReliable_def state_ref_def call_event_def ev write_logged_def
            server_write_def bowler_log_def set_state_def Let_def)
  qed
qed

lemma handlePacketUnreliable_errno:
  "handlePacketUnreliable c io ip d (st\<lparr>errno := e, trace := t\<rparr>)
     = (handlePacketUnreliable c io ip d (st\<lparr>trace := t\<rparr>))\<lparr>errno := e\<rparr>"
proof -
  obtain r payload s' where
    ev: "event (snd ip) (pstate (snd ip)) (drop HEADER_LENGTH d) = (r, payload, s')"
    by (cases "event (snd ip) (pstate (snd ip)) (drop HEADER_LENGTH d)")
  show ?thesis
    by (simp add: handlePacketUnreliable_def call_event_def ev server_write_def bowler_log_def
        Let_def)
qed

lemma loop_errno:
  assumes "avail_ret io \<noteq> BOWLER_ERROR c"
  shows "fst (loop c io (st\<lparr>errno := e\<rparr>)) = fst (loop c io st)
       \<and> trace (snd (loop c io (st\<lparr>errno := e\<rparr>))) = trace (snd (loop c io st))
       \<and> packets (snd (loop c io (st\<lparr>errno := e\<rparr>))) = packets (snd (loop c io st))
       \<and> reliableState (snd (loop c io (st\<lparr>errno := e\<rparr>))) = reliableState (snd (loop c io st))"
  using assms
  by (simp add: loop_def Let_def handlePacketReliable_errno handlePacketUnreliable_errno
      server_write_def bowler_log_def split: option.splits)

text \<open>
  C8. \<^verbatim>\<open>addPacket\<close> on an id that is already present returns \<^verbatim>\<open>BOWLER_ERROR\<close> with
  \<open>errno = EINVAL\<close> and changes nothing else, so that every later frame is dispatched as
  before; on an absent id it returns 1, stores the packet, and sets the channel state of a
  reliable packet to \<open>waitForZero\<close>.
\<close>

theorem addPacket_duplicate_or_stored:
  "(packets st (getId p) \<noteq> None \<longrightarrow>
      addPacket c p st = (BOWLER_ERROR c, st\<lparr>errno := EINVAL\<rparr>)
      \<and> packets (snd (addPacket c p st)) = packets st
      \<and> reliableState (snd (addPacket c p st)) = reliableState st
      \<and> (avail_ret io \<noteq> BOWLER_ERROR c \<longrightarrow>
           fst (loop c io (snd (addPacket c p st))) = fst (loop c io st)
         \<and> trace (snd (loop c io (snd (addPacket c p st)))) = trace (snd (loop c io st))
         \<and> packets (snd (loop c io (snd (addPacket c p st)))) = packets (snd (loop c io st))
         \<and> reliableState (snd (loop c io (snd (addPacket c p st))))
             = reliableState (snd (loop c io st))))
   \<and> (packets st (getId p) = None \<longrightarrow>
      fst (addPacket c p st) = 1
      \<and> packets (snd (addPacket c p st)) = (packets st)(getId p \<mapsto> p)
      \<and> reliableState (snd (addPacket c p st)) =
          (if isReliable p then (reliableState st)(getId p \<mapsto> waitForZero) else reliableState st)
      \<and> ensuredPackets (snd (addPacket c p st)) = ensuredPackets st
      \<and> trace (snd (addPacket c p st)) = trace st)"
proof (cases "packets st (getId p)")
  case None
  then show ?thesis by (simp add: addPacket_def)
next
  case (Some q)
  then have eq: "addPacket c p st = (BOWLER_ERROR c, st\<lparr>errno := EINVAL\<rparr>)"
    by (simp add: addPacket_def)
  show ?thesis
    unfolding eq using Some loop_errno [where e = EINVAL and st = st and io = io and c = c] by simp
qed

theorem addPacket_duplicate_or_stored_witness:
  "packets coms_ex (getId (plain 5)) \<noteq> None
   \<and> addPacket ex_consts (plain 5) coms_ex = (BOWLER_ERROR ex_consts, coms_ex\<lparr>errno := EINVAL\<rparr>)
   \<and> avail_ret (io_frame [5, 0, 0, 3, 0, 0, 0, 0]) \<noteq> BOWLER_ERROR ex_consts
   \<and> trace (snd (loop ex_consts (io_frame [5, 0, 0, 3, 0, 0, 0, 0])
        (snd (addPacket ex_consts (plain 5) coms_ex))))
       = trace (snd (loop ex_consts (io_frame [5, 0, 0, 3, 0, 0, 0, 0]) coms_ex))
   \<and> packets coms_ex (getId (plain 7)) = None
   \<and> fst (addPacket ex_consts (plain 7) coms_ex) = 1
   \<and> packets (snd (addPacket ex_consts (plain 7) coms_ex)) 7 = Some (plain 7)
   \<and> packets coms0 (getId doubler) = None
   \<and> reliableState (snd (addPacket ex_consts doubler coms0)) 5 = Some waitForZero"
proof -
  have dup: "packets coms_ex (getId (plain 5)) \<noteq> None"
    by (simp add: coms_ex_def coms0_def addPacket_def doubler_def mgmt_def plain_def)
  have new7: "packets coms_ex (getId (plain 7)) = None"
    by (simp add: coms_ex_def coms0_def addPacket_def doubler_def mgmt_def plain_def)
  have new5: "packets coms0 (getId doubler) = None"
    by (simp add: coms0_def)
  have io: "avail_ret (io_frame [5, 0, 0, 3, 0, 0, 0, 0]) \<noteq> BOWLER_ERROR ex_consts"
    by (simp add: io_frame_def ex_consts_def)
  have id7: "getId (plain 7) = 7" and id5: "getId doubler = 5" and rel: "isReliable doubler"
    by (simp_all add: plain_def doubler_def)
  have a: "addPacket ex_consts (plain 5) coms_ex
             = (BOWLER_ERROR ex_consts, coms_ex\<lparr>errno := EINVAL\<rparr>)
           \<and> trace (snd (loop ex_consts (io_frame [5, 0, 0, 3, 0, 0, 0, 0])
                (snd (addPacket ex_consts (plain 5) coms_ex))))
               = trace (snd (loop ex_consts (io_frame [5, 0, 0, 3, 0, 0, 0, 0]) coms_ex))"
    using addPacket_duplicate_or_stored
            [of coms_ex "plain 5" ex_consts "io_frame [5, 0, 0, 3, 0, 0, 0, 0]"] dup io
    by blast
  have b: "fst (addPacket ex_consts (plain 7) coms_ex) = 1
           \<and> packets (snd (addPacket ex_consts (plain 7) coms_ex)) 7 = Some (plain 7)"
    using addPacket_duplicate_or_stored
            [of coms_ex "plain 7" ex_consts "io_frame [5, 0, 0, 3, 0, 0, 0, 0]"] new7
    by (simp add: id7)
  have c: "reliableState (snd (addPacket ex_consts doubler coms0)) 5 = Some waitForZero"
    using addPacket_duplicate_or_stored
            [of coms0 doubler ex_consts "io_frame [5, 0, 0, 3, 0, 0, 0, 0]"] new5
    by (simp add: id5 rel)
  from dup new7 new5 io a b c show ?thesis by blast
qed

text \<open>
  C4, as the code has it. \<^verbatim>\<open>removePacket\<close> erases the id from \<^verbatim>\<open>packets\<close> and from
  nothing else: the entry of \<^verbatim>\<open>reliableState\<close> stays. On an id that is not registered it
  changes nothing.
\<close>

theorem removePacket_erases_packet_only:
  "packets (removePacket iid st) = (packets st)(iid := None)
   \<and> reliableState (removePacket iid st) = reliableState st
   \<and> ensuredPackets (removePacket iid st) = ensuredPackets st
   \<and> (packets st iid = None \<longrightarrow> removePacket iid st = st)"
proof -
  have "packets st iid = None \<Longrightarrow> (packets st)(iid := None) = packets st"
    by (rule ext) simp
  then show ?thesis by (simp add: removePacket_def)
qed

theorem removePacket_erases_packet_only_witness:
  "packets (removePacket 5 coms_ex) 5 = None
   \<and> packets (removePacket 5 coms_ex) 1 = Some mgmt
   \<and> packets coms_ex 9 = None \<and> removePacket 9 coms_ex = coms_ex"
  using removePacket_erases_packet_only [of 5 coms_ex] removePacket_erases_packet_only [of 9 coms_ex]
  by (simp add: coms_ex_def coms0_def addPacket_def ex_consts_def doubler_def mgmt_def)

text \<open>
  The claim as the specification words it fails: the reliable packet 5 is registered, and
  after \<^verbatim>\<open>removePacket(5)\<close> the state table still holds its channel state.
\<close>

theorem removePacket_keeps_channel_state:
  "packets coms_ex 5 = Some doubler
   \<and> reliableState coms_ex 5 = Some waitForZero
   \<and> packets (removePacket 5 coms_ex) 5 = None
   \<and> reliableState (removePacket 5 coms_ex) 5 = Some waitForZero"
  by (simp add: removePacket_def coms_ex_def coms0_def addPacket_def ex_consts_def doubler_def
      mgmt_def)

subsection \<open>The loop\<close>

text \<open>A frame whose id has a packet goes to one of the two handlers, and the loop returns 1.\<close>

lemma loop_dispatch:
  assumes "avail_ret io \<noteq> BOWLER_ERROR c"
      and "avail_flag io"
      and "read_ret io \<noteq> BOWLER_ERROR c"
      and "packets st (getPacketId (read_data io)) = Some p"
  shows "loop c io st =
           (1, (if isReliable p then handlePacketReliable else handlePacketUnreliable)
                 c io (getPacketId (read_data io), p) (read_data io)
                 (st\<lparr>errno := (case avail_errno io of None \<Rightarrow> errno st | Some e \<Rightarrow> e),
                     trace := trace st @ [ServerIsDataAvailable, ServerRead]\<rparr>))"
  using assms by (simp add: loop_def Let_def)

text \<open>
  C6. A frame whose id has no packet: the loop writes the frame back with id, sequence
  number and ACK byte as read and every payload byte zero, calls no \<^verbatim>\<open>event\<close>, and returns
  \<^verbatim>\<open>BOWLER_ERROR\<close> with \<open>errno = ENODEV\<close>; registry and channel states are untouched.
\<close>

theorem loop_unknown_id:
  assumes "avail_ret io \<noteq> BOWLER_ERROR c"
      and "avail_flag io"
      and "read_ret io \<noteq> BOWLER_ERROR c"
      and "HEADER_LENGTH + 1 \<le> length (read_data io)"
      and "packets st (getPacketId (read_data io)) = None"
  shows "fst (loop c io st) = BOWLER_ERROR c
       \<and> errno (snd (loop c io st)) = ENODEV
       \<and> written_frames (trace (snd (loop c io st))) = written_frames (trace st) @
           [[getPacketId (read_data io), getSeqNum (read_data io), getAckNum (read_data io)]
              @ replicate (length (read_data io) - HEADER_LENGTH) 0]
       \<and> packet_events (trace (snd (loop c io st))) = packet_events (trace st)
       \<and> packets (snd (loop c io st)) = packets st
       \<and> reliableState (snd (loop c io st)) = reliableState st"
proof -
  have "clearPayload (read_data io) =
          [getPacketId (read_data io), getSeqNum (read_data io), getAckNum (read_data io)]
            @ replicate (length (read_data io) - HEADER_LENGTH) 0"
    using assms(4) by (simp add: clearPayload_def header_bytes)
  with assms show ?thesis
    by (simp add: loop_def Let_def server_write_def bowler_log_def
        packet_events_append written_frames_append)
qed

theorem loop_unknown_id_witness:
  "avail_ret (io_frame [8, 1, 1, 3, 4, 0, 0, 0]) \<noteq> BOWLER_ERROR ex_consts
   \<and> avail_flag (io_frame [8, 1, 1, 3, 4, 0, 0, 0])
   \<and> read_ret (io_frame [8, 1, 1, 3, 4, 0, 0, 0]) \<noteq> BOWLER_ERROR ex_consts
   \<and> HEADER_LENGTH + 1 \<le> length (read_data (io_frame [8, 1, 1, 3, 4, 0, 0, 0]))
   \<and> packets coms_ex (getPacketId (read_data (io_frame [8, 1, 1, 3, 4, 0, 0, 0]))) = None
   \<and> fst (loop ex_consts (io_frame [8, 1, 1, 3, 4, 0, 0, 0]) coms_ex) = - 1
   \<and> errno (snd (loop ex_consts (io_frame [8, 1, 1, 3, 4, 0, 0, 0]) coms_ex)) = ENODEV
   \<and> written_frames (trace (snd (loop ex_consts (io_frame [8, 1, 1, 3, 4, 0, 0, 0]) coms_ex)))
       = [[8, 1, 1, 0, 0, 0, 0, 0]]"
  using loop_unknown_id [of "io_frame [8, 1, 1, 3, 4, 0, 0, 0]" ex_consts coms_ex]
  by (simp add: coms_ex_def coms0_def addPacket_def ex_consts_def doubler_def mgmt_def
      io_frame_def getPacketId_def getSeqNum_def getAckNum_def HEADER_LENGTH_def numeral_3_eq_3)

text \<open>
  The two paths of \<^verbatim>\<open>loop\<close> on which the transport fails before a frame is at hand:
  \<^verbatim>\<open>isDataAvailable\<close> fails, or \<^verbatim>\<open>read\<close> fails. Either way the failure goes to
  \<^verbatim>\<open>BOWLER_LOG\<close> (for \<^verbatim>\<open>isDataAvailable\<close>, unless \<open>errno\<close> is \<open>EWOULDBLOCK\<close>) and the
  function falls through to \<^verbatim>\<open>return 1\<close>. Nothing is written, no \<^verbatim>\<open>event\<close> is called, and
  registry, channel states and factory queue are as before.
\<close>

lemma loop_failure_paths:
  assumes "avail_ret io = BOWLER_ERROR c
           \<or> (avail_flag io \<and> read_ret io = BOWLER_ERROR c)"
  shows "fst (loop c io st) = 1
       \<and> written_frames (trace (snd (loop c io st))) = written_frames (trace st)
       \<and> packet_events (trace (snd (loop c io st))) = packet_events (trace st)
       \<and> packets (snd (loop c io st)) = packets st
       \<and> reliableState (snd (loop c io st)) = reliableState st
       \<and> ensuredPackets (snd (loop c io st)) = ensuredPackets st
       \<and> trace (snd (loop c io st)) = trace st @
           (if avail_ret io = BOWLER_ERROR c
            then ServerIsDataAvailable #
                 (if errno (snd (loop c io st)) \<noteq> EWOULDBLOCK then [BowlerLog LogPeeking] else [])
            else [ServerIsDataAvailable, ServerRead, BowlerLog LogReading])"
  using assms
  by (auto simp add: loop_def Let_def bowler_log_def packet_events_append written_frames_append)

text \<open>
  C5. \<^verbatim>\<open>loop\<close> is documented to return 1 on success or \<^verbatim>\<open>BOWLER_ERROR\<close> on error, its
  comments call a failed \<^verbatim>\<open>read\<close> and a failed \<^verbatim>\<open>isDataAvailable\<close> with an \<open>errno\<close> other
  than \<open>EWOULDBLOCK\<close> errors, and the branch for an unknown id does return
  \<^verbatim>\<open>BOWLER_ERROR\<close>. On these two failures the code does not: here \<^verbatim>\<open>read\<close> fails,
  respectively \<^verbatim>\<open>isDataAvailable\<close> fails with \<open>errno = 5\<close>, and the caller gets 1, which is
  not \<^verbatim>\<open>BOWLER_ERROR\<close>. The failure is logged and no frame is written.
\<close>

theorem loop_transport_failure_returns_success:
  "avail_ret io_read_error \<noteq> BOWLER_ERROR ex_consts
   \<and> avail_flag io_read_error
   \<and> read_ret io_read_error = BOWLER_ERROR ex_consts
   \<and> fst (loop ex_consts io_read_error coms_ex) = 1
   \<and> fst (loop ex_consts io_read_error coms_ex) \<noteq> BOWLER_ERROR ex_consts
   \<and> trace (snd (loop ex_consts io_read_error coms_ex))
       = [ServerIsDataAvailable, ServerRead, BowlerLog LogReading]
   \<and> avail_ret io_peek_error = BOWLER_ERROR ex_consts
   \<and> avail_errno io_peek_error = Some 5
   \<and> 5 \<noteq> EWOULDBLOCK
   \<and> fst (loop ex_consts io_peek_error coms_ex) = 1
   \<and> fst (loop ex_consts io_peek_error coms_ex) \<noteq> BOWLER_ERROR ex_consts
   \<and> trace (snd (loop ex_consts io_peek_error coms_ex))
       = [ServerIsDataAvailable, BowlerLog LogPeeking]"
  by (simp add: loop_def Let_def bowler_log_def ex_consts_def io_read_error_def
      io_peek_error_def EWOULDBLOCK_def coms_ex_def coms0_def addPacket_def doubler_def mgmt_def)

subsection \<open>Ensured packets\<close>

lemma factory_calls_append: "factory_calls (xs @ ys) = factory_calls xs @ factory_calls ys"
  by (induction xs rule: factory_calls.induct) simp_all

lemma addPacket_fresh:
  assumes "packets st (getId p) = None"
  shows "addPacket c p st =
           (1, st\<lparr>reliableState := (if isReliable p
                                      then (reliableState st)(getId p \<mapsto> waitForZero)
                                      else reliableState st),
                  packets := (packets st)(getId p \<mapsto> p)\<rparr>)"
  using assms by (simp add: addPacket_def)

lemma addPacket_used:
  assumes "packets st (getId p) \<noteq> None"
  shows "addPacket c p st = (BOWLER_ERROR c, st\<lparr>errno := EINVAL\<rparr>)"
proof -
  from assms obtain q where "packets st (getId p) = Some q" by blast
  then show ?thesis by (simp add: addPacket_def)
qed

text \<open>The range-for never touches the vector, and never takes a packet out of the registry.\<close>

lemma addEnsuredPackets_from_queue:
  "ensuredPackets (snd (addEnsuredPackets_from c q st)) = ensuredPackets st"
proof (induction q arbitrary: st)
  case Nil
  then show ?case by simp
next
  case (Cons g q)
  show ?case
    by (cases "packets st (getId (g ()))")
       (simp_all add: Let_def addPacket_def Cons.IH)
qed

lemma addEnsuredPackets_from_keeps:
  "packets st k \<noteq> None \<Longrightarrow> packets (snd (addEnsuredPackets_from c q st)) k \<noteq> None"
proof (induction q arbitrary: st)
  case Nil
  then show ?case by simp
next
  case (Cons g q)
  let ?st0 = "st\<lparr>trace := trace st @ [FactoryCall (getId (g ()))]\<rparr>"
  obtain r st1 where ap: "addPacket c (g ()) ?st0 = (r, st1)"
    by (cases "addPacket c (g ()) ?st0")
  have "packets st1 k \<noteq> None"
  proof (cases "packets ?st0 (getId (g ()))")
    case None
    from ap [unfolded addPacket_fresh [OF None]] Cons.prems show ?thesis
      by auto
  next
    case (Some p)
    then have "packets ?st0 (getId (g ())) \<noteq> None" by simp
    from ap [unfolded addPacket_used [OF this]] Cons.prems show ?thesis
      by auto
  qed
  from Cons.IH [OF this] this show ?case
    by (simp add: Let_def ap)
qed

text \<open>The run of the loop over a queue whose first colliding factory is \<open>f\<close>.\<close>

lemma addEnsuredPackets_from_collision:
  assumes "BOWLER_ERROR c \<noteq> 1"
      and "distinct (map (\<lambda>g. getId (g ())) pre)"
      and "\<forall>g \<in> set pre. packets st (getId (g ())) = None"
      and "packets st (getId (f ())) \<noteq> None \<or> getId (f ()) \<in> (\<lambda>g. getId (g ())) ` set pre"
  shows "fst (addEnsuredPackets_from c (pre @ f # post) st) = BOWLER_ERROR c
       \<and> errno (snd (addEnsuredPackets_from c (pre @ f # post) st)) = EINVAL
       \<and> factory_calls (trace (snd (addEnsuredPackets_from c (pre @ f # post) st)))
           = factory_calls (trace st) @ map (\<lambda>g. getId (g ())) (pre @ [f])
       \<and> (\<forall>g \<in> set pre.
             packets (snd (addEnsuredPackets_from c (pre @ f # post) st)) (getId (g ())) = Some (g ()))
       \<and> (\<forall>g \<in> set pre. isReliable (g ()) \<longrightarrow>
             reliableState (snd (addEnsuredPackets_from c (pre @ f # post) st)) (getId (g ()))
               = Some waitForZero)
       \<and> (\<forall>k. k \<notin> (\<lambda>g. getId (g ())) ` set pre \<longrightarrow>
             packets (snd (addEnsuredPackets_from c (pre @ f # post) st)) k = packets st k
           \<and> reliableState (snd (addEnsuredPackets_from c (pre @ f # post) st)) k
               = reliableState st k)"
  using assms
proof (induction pre arbitrary: st)
  case Nil
  then have u: "packets (st\<lparr>trace := trace st @ [FactoryCall (getId (f ()))]\<rparr>) (getId (f ())) \<noteq> None"
    by simp
  show ?case
    by (simp add: Let_def addPacket_used [OF u] factory_calls_append)
next
  case (Cons g pre)
  define st1 where
    "st1 = snd (addPacket c (g ()) (st\<lparr>trace := trace st @ [FactoryCall (getId (g ()))]\<rparr>))"
  have fresh: "packets st (getId (g ())) = None"
    using Cons.prems(3) by simp
  have ok: "fst (addPacket c (g ()) (st\<lparr>trace := trace st @ [FactoryCall (getId (g ()))]\<rparr>)) = 1"
    using fresh by (simp add: addPacket_def)
  have p1: "packets st1 = (packets st)(getId (g ()) \<mapsto> g ())"
    and r1: "reliableState st1 = (if isReliable (g ())
                                   then (reliableState st)(getId (g ()) \<mapsto> waitForZero)
                                   else reliableState st)"
    and t1: "trace st1 = trace st @ [FactoryCall (getId (g ()))]"
    using fresh by (simp_all add: st1_def addPacket_def)
  have step: "addEnsuredPackets_from c ((g # pre) @ f # post) st
                = addEnsuredPackets_from c (pre @ f # post) st1"
    using Cons.prems(1) ok by (simp add: Let_def case_prod_beta st1_def)
  have notin: "\<forall>h \<in> set pre. getId (h ()) \<noteq> getId (g ())"
    using Cons.prems(2) by (auto simp: image_iff)
  have d: "distinct (map (\<lambda>g. getId (g ())) pre)"
    using Cons.prems(2) by simp
  have n: "\<forall>h \<in> set pre. packets st1 (getId (h ())) = None"
    using Cons.prems(3) notin by (simp add: p1)
  have col: "packets st1 (getId (f ())) \<noteq> None \<or> getId (f ()) \<in> (\<lambda>g. getId (g ())) ` set pre"
    using Cons.prems(4) by (auto simp: p1)
  define r where "r = addEnsuredPackets_from c (pre @ f # post) st1"
  note IH = Cons.IH [OF Cons.prems(1) d n col, folded r_def]
  have 1: "fst r = BOWLER_ERROR c" and 2: "errno (snd r) = EINVAL"
    using IH by simp_all
  have 3: "factory_calls (trace (snd r))
             = factory_calls (trace st) @ map (\<lambda>g. getId (g ())) ((g # pre) @ [f])"
    using IH by (simp add: t1 factory_calls_append)
  have rest: "\<forall>k. k \<notin> (\<lambda>g. getId (g ())) ` set pre \<longrightarrow>
                packets (snd r) k = packets st1 k \<and> reliableState (snd r) k = reliableState st1 k"
    using IH by blast
  have gnot: "getId (g ()) \<notin> (\<lambda>g. getId (g ())) ` set pre"
    using notin by auto
  have 4: "\<forall>h \<in> set (g # pre). packets (snd r) (getId (h ())) = Some (h ())"
  proof
    fix h assume "h \<in> set (g # pre)"
    then consider "h = g" | "h \<in> set pre" by auto
    then show "packets (snd r) (getId (h ())) = Some (h ())"
    proof cases
      case 1
      with rest gnot show ?thesis by (simp add: p1)
    next
      case 2
      with IH show ?thesis by blast
    qed
  qed
  have 5: "\<forall>h \<in> set (g # pre). isReliable (h ()) \<longrightarrow>
             reliableState (snd r) (getId (h ())) = Some waitForZero"
  proof
    fix h assume "h \<in> set (g # pre)"
    then consider "h = g" | "h \<in> set pre" by auto
    then show "isReliable (h ()) \<longrightarrow> reliableState (snd r) (getId (h ())) = Some waitForZero"
    proof cases
      case 1
      with rest gnot show ?thesis by (simp add: r1)
    next
      case 2
      with IH show ?thesis by blast
    qed
  qed
  have 6: "\<forall>k. k \<notin> (\<lambda>g. getId (g ())) ` set (g # pre) \<longrightarrow>
             packets (snd r) k = packets st k \<and> reliableState (snd r) k = reliableState st k"
    using rest by (simp add: p1 r1)
  show ?case
    unfolding step r_def [symmetric] using 1 2 3 4 5 6 by blast
qed

text \<open>A queue of fresh, pairwise different ids is registered whole.\<close>

lemma addEnsuredPackets_from_all_fresh:
  assumes "BOWLER_ERROR c \<noteq> 1"
      and "distinct (map (\<lambda>g. getId (g ())) q)"
      and "\<forall>g \<in> set q. packets st (getId (g ())) = None"
  shows "fst (addEnsuredPackets_from c q st) = 1
       \<and> factory_calls (trace (snd (addEnsuredPackets_from c q st)))
           = factory_calls (trace st) @ map (\<lambda>g. getId (g ())) q
       \<and> (\<forall>g \<in> set q. packets (snd (addEnsuredPackets_from c q st)) (getId (g ())) = Some (g ()))
       \<and> (\<forall>k. k \<notin> (\<lambda>g. getId (g ())) ` set q \<longrightarrow>
             packets (snd (addEnsuredPackets_from c q st)) k = packets st k)"
  using assms
proof (induction q arbitrary: st)
  case Nil
  then show ?case by simp
next
  case (Cons g q)
  define st1 where
    "st1 = snd (addPacket c (g ()) (st\<lparr>trace := trace st @ [FactoryCall (getId (g ()))]\<rparr>))"
  have fresh: "packets st (getId (g ())) = None"
    using Cons.prems(3) by simp
  have ok: "fst (addPacket c (g ()) (st\<lparr>trace := trace st @ [FactoryCall (getId (g ()))]\<rparr>)) = 1"
    using fresh by (simp add: addPacket_def)
  have p1: "packets st1 = (packets st)(getId (g ()) \<mapsto> g ())"
    and t1: "trace st1 = trace st @ [FactoryCall (getId (g ()))]"
    using fresh by (simp_all add: st1_def addPacket_def)
  have step: "addEnsuredPackets_from c (g # q) st = addEnsuredPackets_from c q st1"
    using Cons.prems(1) ok by (simp add: Let_def case_prod_beta st1_def)
  have notin: "\<forall>h \<in> set q. getId (h ()) \<noteq> getId (g ())"
    using Cons.prems(2) by (auto simp: image_iff)
  have d: "distinct (map (\<lambda>g. getId (g ())) q)"
    using Cons.prems(2) by simp
  have n: "\<forall>h \<in> set q. packets st1 (getId (h ())) = None"
    using Cons.prems(3) notin by (simp add: p1)
  define r where "r = addEnsuredPackets_from c q st1"
  note IH = Cons.IH [OF Cons.prems(1) d n, folded r_def]
  have 1: "fst r = 1"
    using IH by simp
  have 3: "factory_calls (trace (snd r)) = factory_calls (trace st) @ map (\<lambda>g. getId (g ())) (g # q)"
    using IH by (simp add: t1 factory_calls_append)
  have rest: "\<forall>k. k \<notin> (\<lambda>g. getId (g ())) ` set q \<longrightarrow> packets (snd r) k = packets st1 k"
    using IH by blast
  have gnot: "getId (g ()) \<notin> (\<lambda>g. getId (g ())) ` set q"
    using notin by auto
  have 4: "\<forall>h \<in> set (g # q). packets (snd r) (getId (h ())) = Some (h ())"
  proof
    fix h assume "h \<in> set (g # q)"
    then consider "h = g" | "h \<in> set q" by auto
    then show "packets (snd r) (getId (h ())) = Some (h ())"
    proof cases
      case 1
      with rest gnot show ?thesis by (simp add: p1)
    next
      case 2
      with IH show ?thesis by blast
    qed
  qed
  have 6: "\<forall>k. k \<notin> (\<lambda>g. getId (g ())) ` set (g # q) \<longrightarrow> packets (snd r) k = packets st k"
    using rest by (simp add: p1)
  show ?case
    unfolding step r_def [symmetric] using 1 3 4 6 by blast
qed

text \<open>
  C7. \<^verbatim>\<open>addEnsuredPackets\<close> calls the queued factories in order and hands each packet to
  \<^verbatim>\<open>addPacket\<close>. Let \<open>f\<close> be the first factory whose id is taken, by the registry or by a
  factory before it. Then the call returns \<^verbatim>\<open>BOWLER_ERROR\<close> with \<open>errno = EINVAL\<close>; the
  factories called are exactly those up to and including \<open>f\<close>, none after it; the packet
  of every factory before \<open>f\<close> is registered (with channel state \<open>waitForZero\<close> when
  reliable) and stays so; every other id is as before. \<^verbatim>\<open>BOWLER_ERROR\<close> is assumed to
  differ from the success value 1.
\<close>

theorem addEnsuredPackets_stops_at_first_duplicate:
  assumes "BOWLER_ERROR c \<noteq> 1"
      and "ensuredPackets st = pre @ f # post"
      and "distinct (map (\<lambda>g. getId (g ())) pre)"
      and "\<forall>g \<in> set pre. packets st (getId (g ())) = None"
      and "packets st (getId (f ())) \<noteq> None \<or> getId (f ()) \<in> (\<lambda>g. getId (g ())) ` set pre"
  shows "fst (addEnsuredPackets c st) = BOWLER_ERROR c
       \<and> errno (snd (addEnsuredPackets c st)) = EINVAL
       \<and> factory_calls (trace (snd (addEnsuredPackets c st)))
           = factory_calls (trace st) @ map (\<lambda>g. getId (g ())) (pre @ [f])
       \<and> (\<forall>g \<in> set pre. packets (snd (addEnsuredPackets c st)) (getId (g ())) = Some (g ()))
       \<and> (\<forall>g \<in> set pre. isReliable (g ()) \<longrightarrow>
             reliableState (snd (addEnsuredPackets c st)) (getId (g ())) = Some waitForZero)
       \<and> (\<forall>k. k \<notin> (\<lambda>g. getId (g ())) ` set pre \<longrightarrow>
             packets (snd (addEnsuredPackets c st)) k = packets st k
           \<and> reliableState (snd (addEnsuredPackets c st)) k = reliableState st k)"
  unfolding addEnsuredPackets_def assms(2)
  using assms(1,3,4,5) by (rule addEnsuredPackets_from_collision [of c pre st f post])

theorem addEnsuredPackets_stops_at_first_duplicate_witness:
  "BOWLER_ERROR ex_consts \<noteq> 1
   \<and> ensuredPackets coms_queued = [\<lambda>u. plain 7] @ (\<lambda>u. doubler) # [\<lambda>u. plain 9]
   \<and> packets coms_queued 7 = None
   \<and> packets coms_queued 5 \<noteq> None
   \<and> fst (addEnsuredPackets ex_consts coms_queued) = BOWLER_ERROR ex_consts
   \<and> factory_calls (trace (snd (addEnsuredPackets ex_consts coms_queued))) = [7, 5]
   \<and> packets (snd (addEnsuredPackets ex_consts coms_queued)) 7 = Some (plain 7)
   \<and> packets (snd (addEnsuredPackets ex_consts coms_queued)) 9 = None"
proof -
  have e: "BOWLER_ERROR ex_consts \<noteq> 1"
    by (simp add: ex_consts_def)
  have q: "ensuredPackets coms_queued = [\<lambda>u. plain 7] @ (\<lambda>u. doubler) # [\<lambda>u. plain 9]"
    by (simp add: coms_queued_def ex_queue_def)
  have p: "packets coms_queued 7 = None" "packets coms_queued 5 \<noteq> None"
          "packets coms_queued 9 = None" "trace coms_queued = []"
    by (simp_all add: coms_queued_def coms_ex_def coms0_def addPacket_def doubler_def mgmt_def)
  have i: "getId (plain 7) = 7" "getId doubler = 5"
    by (simp_all add: plain_def doubler_def)
  have "fst (addEnsuredPackets ex_consts coms_queued) = BOWLER_ERROR ex_consts
      \<and> factory_calls (trace (snd (addEnsuredPackets ex_consts coms_queued))) = [7, 5]
      \<and> packets (snd (addEnsuredPackets ex_consts coms_queued)) 7 = Some (plain 7)
      \<and> packets (snd (addEnsuredPackets ex_consts coms_queued)) 9 = None"
    using addEnsuredPackets_stops_at_first_duplicate
            [of ex_consts coms_queued "[\<lambda>u. plain 7]" "\<lambda>u. doubler" "[\<lambda>u. plain 9]", OF e q]
          p
    by (simp add: i)
  with e q p show ?thesis by blast
qed

text \<open>
  C10. \<^verbatim>\<open>addEnsuredPackets\<close> leaves the queue as it was. The loop stops at the first
  failure, so some registration succeeded exactly when the first one did, that is, when
  the id of the first factory was free. Calling \<^verbatim>\<open>addEnsuredPackets\<close> again then starts
  from the first factory again, calls it and no other, and returns \<^verbatim>\<open>BOWLER_ERROR\<close> with
  \<open>errno = EINVAL\<close> on that id, which the first call registered; registry and channel
  states are left as the first call made them.
\<close>

theorem addEnsuredPackets_again_fails_at_first:
  assumes "BOWLER_ERROR c \<noteq> 1"
      and "ensuredPackets st = f # rest"
      and "packets st (getId (f ())) = None"
      and "st1 = snd (addEnsuredPackets c st)"
  shows "ensuredPackets st1 = ensuredPackets st
       \<and> packets st1 (getId (f ())) \<noteq> None
       \<and> fst (addEnsuredPackets c st1) = BOWLER_ERROR c
       \<and> errno (snd (addEnsuredPackets c st1)) = EINVAL
       \<and> factory_calls (trace (snd (addEnsuredPackets c st1)))
           = factory_calls (trace st1) @ [getId (f ())]
       \<and> packets (snd (addEnsuredPackets c st1)) = packets st1
       \<and> reliableState (snd (addEnsuredPackets c st1)) = reliableState st1
       \<and> ensuredPackets (snd (addEnsuredPackets c st1)) = ensuredPackets st"
proof -
  let ?st0 = "st\<lparr>trace := trace st @ [FactoryCall (getId (f ()))]\<rparr>"
  let ?st' = "?st0\<lparr>reliableState := (if isReliable (f ())
                                       then (reliableState ?st0)(getId (f ()) \<mapsto> waitForZero)
                                       else reliableState ?st0),
                   packets := (packets ?st0)(getId (f ()) \<mapsto> f ())\<rparr>"
  have fresh: "packets ?st0 (getId (f ())) = None"
    using assms(3) by simp
  have first: "addEnsuredPackets c st = addEnsuredPackets_from c rest ?st'"
    using assms(1) by (simp add: addEnsuredPackets_def assms(2) Let_def addPacket_fresh [OF fresh])
  have q: "ensuredPackets st1 = f # rest"
    unfolding assms(4) addEnsuredPackets_def
    by (simp only: addEnsuredPackets_from_queue assms(2))
  have "packets ?st' (getId (f ())) \<noteq> None"
    by simp
  then have taken: "packets st1 (getId (f ())) \<noteq> None"
    unfolding assms(4) first by (rule addEnsuredPackets_from_keeps)
  let ?st2 = "st1\<lparr>trace := trace st1 @ [FactoryCall (getId (f ()))]\<rparr>"
  have used: "packets ?st2 (getId (f ())) \<noteq> None"
    using taken by simp
  have again: "addEnsuredPackets c st1 = (BOWLER_ERROR c, ?st2\<lparr>errno := EINVAL\<rparr>)"
    by (simp add: addEnsuredPackets_def q Let_def addPacket_used [OF used])
  show ?thesis
    unfolding again using q taken by (simp add: assms(2) factory_calls_append)
qed

theorem addEnsuredPackets_again_fails_at_first_witness:
  "BOWLER_ERROR ex_consts \<noteq> 1
   \<and> ensuredPackets coms_queued = (\<lambda>u. plain 7) # [\<lambda>u. doubler, \<lambda>u. plain 9]
   \<and> packets coms_queued (getId (plain 7)) = None
   \<and> ensuredPackets (snd (addEnsuredPackets ex_consts coms_queued)) = ensuredPackets coms_queued
   \<and> fst (addEnsuredPackets ex_consts (snd (addEnsuredPackets ex_consts coms_queued)))
       = BOWLER_ERROR ex_consts
   \<and> factory_calls (trace (snd (addEnsuredPackets ex_consts
        (snd (addEnsuredPackets ex_consts coms_queued)))))
       = factory_calls (trace (snd (addEnsuredPackets ex_consts coms_queued))) @ [7]"
proof -
  have e: "BOWLER_ERROR ex_consts \<noteq> 1"
    by (simp add: ex_consts_def)
  have q: "ensuredPackets coms_queued = (\<lambda>u. plain 7) # [\<lambda>u. doubler, \<lambda>u. plain 9]"
    by (simp add: coms_queued_def ex_queue_def)
  have i: "getId (plain 7) = 7"
    by (simp add: plain_def)
  have p: "packets coms_queued (getId (plain 7)) = None"
    by (simp add: i coms_queued_def coms_ex_def coms0_def addPacket_def doubler_def mgmt_def)
  from addEnsuredPackets_again_fails_at_first
         [of ex_consts coms_queued "\<lambda>u. plain 7" "[\<lambda>u. doubler, \<lambda>u. plain 9]", OF e q p refl]
       e q p
  show ?thesis by (simp add: i)
qed

end
